theory Spec2Isabelle
  imports Main "HOL-Library.Word" "HOL-Library.Stream"
begin

unbundle bit_operations_syntax

section \<open>DR16 receiver module: data model\<close>

text \<open>
  The embedding follows \<^verbatim>\<open>src/DR16.hpp\<close>. Machine integers are words of the
  width the source declares; a bit-field of \<open>n\<close> bits is an \<open>n word\<close>. Isabelle
  refuses names that end in an underscore and the names \<open>x\<close>, \<open>y\<close>, \<open>z\<close> would
  capture variables, so the members \<^verbatim>\<open>data_\<close>, \<^verbatim>\<open>data_view_\<close>, \<^verbatim>\<open>x\<close>, \<^verbatim>\<open>y\<close>
  and \<^verbatim>\<open>z\<close> carry the suffix \<open>fld\<close>; the members of \<^verbatim>\<open>DataView\<close> carry the
  suffix \<open>_v\<close> to keep them apart from those of \<^verbatim>\<open>Data\<close>.
\<close>

subsection \<open>Constants (lines 16 to 18)\<close>

text \<open>The macros are \<^verbatim>\<open>unsigned int\<close> literals: 32-bit words.\<close>

definition DR16_CH_VALUE_MIN :: "32 word" where
  "DR16_CH_VALUE_MIN = 364"

definition DR16_CH_VALUE_MID :: "32 word" where
  "DR16_CH_VALUE_MID = 1024"

definition DR16_CH_VALUE_MAX :: "32 word" where
  "DR16_CH_VALUE_MAX = 1684"

subsection \<open>Enumerations (lines 22 to 59)\<close>

text \<open>
  Each \<^verbatim>\<open>enum class\<close> over \<^verbatim>\<open>uint8_t\<close> is a datatype of its enumerators with a
  function to the underlying 8-bit value. An enumerator without an initialiser
  is its predecessor plus one: \<^verbatim>\<open>DR16_SW_POS_NUM\<close> follows \<open>0x05\<close>, and the
  \<open>n\<close>-th enumerator after \<^verbatim>\<open>KEY_W\<close> is \<^verbatim>\<open>KEY_W\<close> plus \<open>n\<close>, where \<^verbatim>\<open>KEY_W\<close> is
  initialised from \<^verbatim>\<open>DR16_SW_POS_NUM\<close>.
\<close>

datatype ControlSource = DR16_CTRL_SOURCE_SW | DR16_CTRL_SOURCE_MOUSE

fun ControlSource_code :: "ControlSource \<Rightarrow> 8 word" where
  "ControlSource_code DR16_CTRL_SOURCE_SW = 0x00"
| "ControlSource_code DR16_CTRL_SOURCE_MOUSE = 0x01"

datatype SwitchPos =
    DR16_SW_L_POS_TOP
  | DR16_SW_L_POS_BOT
  | DR16_SW_L_POS_MID
  | DR16_SW_R_POS_TOP
  | DR16_SW_R_POS_BOT
  | DR16_SW_R_POS_MID
  | DR16_SW_POS_NUM

fun SwitchPos_code :: "SwitchPos \<Rightarrow> 8 word" where
  "SwitchPos_code DR16_SW_L_POS_TOP = 0x00"
| "SwitchPos_code DR16_SW_L_POS_BOT = 0x01"
| "SwitchPos_code DR16_SW_L_POS_MID = 0x02"
| "SwitchPos_code DR16_SW_R_POS_TOP = 0x03"
| "SwitchPos_code DR16_SW_R_POS_BOT = 0x04"
| "SwitchPos_code DR16_SW_R_POS_MID = 0x05"
| "SwitchPos_code DR16_SW_POS_NUM = 0x05 + 1"

datatype Key =
    KEY_W
  | KEY_S
  | KEY_A
  | KEY_D
  | KEY_SHIFT
  | KEY_CTRL
  | KEY_Q
  | KEY_E
  | KEY_R
  | KEY_F
  | KEY_G
  | KEY_Z
  | KEY_X
  | KEY_C
  | KEY_V
  | KEY_B
  | KEY_L_PRESS
  | KEY_R_PRESS
  | KEY_L_RELEASE
  | KEY_R_RELEASE
  | KEY_NUM

fun Key_code :: "Key \<Rightarrow> 8 word" where
  "Key_code KEY_W = SwitchPos_code DR16_SW_POS_NUM"
| "Key_code KEY_S = SwitchPos_code DR16_SW_POS_NUM + 1"
| "Key_code KEY_A = SwitchPos_code DR16_SW_POS_NUM + 2"
| "Key_code KEY_D = SwitchPos_code DR16_SW_POS_NUM + 3"
| "Key_code KEY_SHIFT = SwitchPos_code DR16_SW_POS_NUM + 4"
| "Key_code KEY_CTRL = SwitchPos_code DR16_SW_POS_NUM + 5"
| "Key_code KEY_Q = SwitchPos_code DR16_SW_POS_NUM + 6"
| "Key_code KEY_E = SwitchPos_code DR16_SW_POS_NUM + 7"
| "Key_code KEY_R = SwitchPos_code DR16_SW_POS_NUM + 8"
| "Key_code KEY_F = SwitchPos_code DR16_SW_POS_NUM + 9"
| "Key_code KEY_G = SwitchPos_code DR16_SW_POS_NUM + 10"
| "Key_code KEY_Z = SwitchPos_code DR16_SW_POS_NUM + 11"
| "Key_code KEY_X = SwitchPos_code DR16_SW_POS_NUM + 12"
| "Key_code KEY_C = SwitchPos_code DR16_SW_POS_NUM + 13"
| "Key_code KEY_V = SwitchPos_code DR16_SW_POS_NUM + 14"
| "Key_code KEY_B = SwitchPos_code DR16_SW_POS_NUM + 15"
| "Key_code KEY_L_PRESS = SwitchPos_code DR16_SW_POS_NUM + 16"
| "Key_code KEY_R_PRESS = SwitchPos_code DR16_SW_POS_NUM + 17"
| "Key_code KEY_L_RELEASE = SwitchPos_code DR16_SW_POS_NUM + 18"
| "Key_code KEY_R_RELEASE = SwitchPos_code DR16_SW_POS_NUM + 19"
| "Key_code KEY_NUM = SwitchPos_code DR16_SW_POS_NUM + 20"

text \<open>
  The base keys and pointer-button events: every enumerator of \<^verbatim>\<open>Key\<close> but the
  closing sentinel \<^verbatim>\<open>KEY_NUM\<close>, in declaration order.
\<close>

definition base_keys :: "Key list" where
  "base_keys =
    [KEY_W, KEY_S, KEY_A, KEY_D, KEY_SHIFT, KEY_CTRL, KEY_Q, KEY_E, KEY_R, KEY_F,
     KEY_G, KEY_Z, KEY_X, KEY_C, KEY_V, KEY_B,
     KEY_L_PRESS, KEY_R_PRESS, KEY_L_RELEASE, KEY_R_RELEASE]"

subsection \<open>Combination codes (lines 66 to 86)\<close>

text \<open>
  Both \<^verbatim>\<open>uint8_t\<close> operands are promoted to \<^verbatim>\<open>int\<close>, the sum is formed there and
  converted to the \<^verbatim>\<open>uint32_t\<close> result.
\<close>

definition ShiftWith :: "Key \<Rightarrow> 32 word" where
  "ShiftWith k = word_of_int (uint (Key_code k) + 1 * uint (Key_code KEY_NUM))"

definition CtrlWith :: "Key \<Rightarrow> 32 word" where
  "CtrlWith k = word_of_int (uint (Key_code k) + 2 * uint (Key_code KEY_NUM))"

definition ShiftCtrlWith :: "Key \<Rightarrow> 32 word" where
  "ShiftCtrlWith k = word_of_int (uint (Key_code k) + 3 * uint (Key_code KEY_NUM))"

subsection \<open>The frame \<^verbatim>\<open>Data\<close> (lines 88 to 102)\<close>

text \<open>
  \<^verbatim>\<open>int16_t\<close> members are 16-bit words read with \<open>sint\<close>.
\<close>

record Data =
  ch_r_x :: "11 word"
  ch_r_y :: "11 word"
  ch_l_x :: "11 word"
  ch_l_y :: "11 word"
  sw_r :: "2 word"
  sw_l :: "2 word"
  x_fld :: "16 word"
  y_fld :: "16 word"
  z_fld :: "16 word"
  press_l :: "8 word"
  press_r :: "8 word"
  key :: "16 word"
  res :: "16 word"

subsection \<open>The debug view \<^verbatim>\<open>DataView\<close> (lines 184 to 198)\<close>

record DataView =
  ch_r_x_v :: "16 word"
  ch_r_y_v :: "16 word"
  ch_l_x_v :: "16 word"
  ch_l_y_v :: "16 word"
  sw_r_v :: "8 word"
  sw_l_v :: "8 word"
  x_v :: "16 word"
  y_v :: "16 word"
  z_v :: "16 word"
  press_l_v :: "8 word"
  press_r_v :: "8 word"
  key_v :: "16 word"
  res_v :: "16 word"

subsection \<open>The object state (lines 222 to 226)\<close>

text \<open>
  The data members of a \<^verbatim>\<open>DR16\<close> object that the module's own code reads and
  writes. The handles \<^verbatim>\<open>uart_\<close>, \<^verbatim>\<open>thread_uart_\<close>, \<^verbatim>\<open>sem\<close>, \<^verbatim>\<open>op\<close> and
  \<^verbatim>\<open>cmd_tp_\<close> belong to the external library; calls through them are recorded
  as events further down.
\<close>

record DR16 =
  data_fld :: Data
  data_view_fld :: DataView

section \<open>The validator \<^verbatim>\<open>DataCorrupted\<close> (lines 152 to 178)\<close>

text \<open>
  A non-const member function: it receives the object and hands it back together
  with its verdict. A channel bit-field is promoted to \<^verbatim>\<open>int\<close> and converted to
  \<^verbatim>\<open>unsigned int\<close> for the comparison with the macro, which is \<open>ucast\<close> into 32
  bits; a switch bit-field is promoted to \<^verbatim>\<open>int\<close> and compared with \<open>0\<close>. Each
  \<^verbatim>\<open>return\<close> of the source is one branch, in the source's order.
\<close>

definition DataCorrupted :: "DR16 \<Rightarrow> bool \<times> DR16" where
  "DataCorrupted this =
    (if (ucast (ch_r_x (data_fld this)) :: 32 word) < DR16_CH_VALUE_MIN \<or>
        (ucast (ch_r_x (data_fld this)) :: 32 word) > DR16_CH_VALUE_MAX then (True, this)
     else if (ucast (ch_r_y (data_fld this)) :: 32 word) < DR16_CH_VALUE_MIN \<or>
        (ucast (ch_r_y (data_fld this)) :: 32 word) > DR16_CH_VALUE_MAX then (True, this)
     else if (ucast (ch_l_x (data_fld this)) :: 32 word) < DR16_CH_VALUE_MIN \<or>
        (ucast (ch_l_x (data_fld this)) :: 32 word) > DR16_CH_VALUE_MAX then (True, this)
     else if (ucast (ch_l_y (data_fld this)) :: 32 word) < DR16_CH_VALUE_MIN \<or>
        (ucast (ch_l_y (data_fld this)) :: 32 word) > DR16_CH_VALUE_MAX then (True, this)
     else if uint (sw_l (data_fld this)) = 0 then (True, this)
     else if uint (sw_r (data_fld this)) = 0 then (True, this)
     else (False, this))"

section \<open>The debug conversion \<^verbatim>\<open>DataviewToData\<close> (lines 205 to 219)\<close>

text \<open>
  Present in builds with \<^verbatim>\<open>LIBXR_DEBUG_BUILD\<close> only. It assigns every member of
  the frame to the member of the view of the same name, widening the bit-fields;
  the frame is read and never written, so the model returns the new view.
\<close>

definition DataviewToData :: "DataView \<Rightarrow> Data \<Rightarrow> DataView" where
  "DataviewToData data_view data =
    data_view
      \<lparr> ch_r_x_v := ucast (ch_r_x data),
        ch_r_y_v := ucast (ch_r_y data),
        ch_l_x_v := ucast (ch_l_x data),
        ch_l_y_v := ucast (ch_l_y data),
        sw_r_v := ucast (sw_r data),
        sw_l_v := ucast (sw_l data),
        x_v := x_fld data,
        y_v := y_fld data,
        z_v := z_fld data,
        press_l_v := press_l data,
        press_r_v := press_r data,
        key_v := key data,
        res_v := res data \<rparr>"

section \<open>The acquisition thread \<^verbatim>\<open>Thread_Dr16\<close> (lines 131 to 146)\<close>

text \<open>
  The thread talks to three collaborators of the external library: the UART
  (\<^verbatim>\<open>Read\<close> and the read port's \<^verbatim>\<open>Reset\<close>), the scheduler (\<^verbatim>\<open>Thread::Sleep\<close>) and
  the topic (\<^verbatim>\<open>Publish\<close>). Their code is not part of the module; each call is
  recorded, with its argument, in the order it is made.
\<close>

datatype call =
    UART_Reset
  | UART_Read
  | Thread_Sleep "32 word"
  | Topic_Publish Data

text \<open>
  The state the thread works on: the object, the frames the transport is going
  to deliver (one per \<^verbatim>\<open>Read\<close>, an endless supply: the transport is taken to
  complete every read, as section 7 of the specification assumes) and the calls
  made so far.
\<close>

record world =
  dr16 :: DR16
  rx :: "Data stream"
  calls :: "call list"

text \<open>\<^verbatim>\<open>dr16->uart_->read_port_->Reset()\<close>\<close>

definition Reset :: "world \<Rightarrow> world" where
  "Reset w = w\<lparr>calls := calls w @ [UART_Reset]\<rparr>"

text \<open>
  \<^verbatim>\<open>dr16->uart_->Read(dr16->data_, dr16->op)\<close> with the blocking operation \<^verbatim>\<open>op\<close>:
  the next block of the transport overwrites \<^verbatim>\<open>data_\<close>.
\<close>

definition Read :: "world \<Rightarrow> world" where
  "Read w =
    w\<lparr>dr16 := (dr16 w)\<lparr>data_fld := shd (rx w)\<rparr>,
      rx := stl (rx w),
      calls := calls w @ [UART_Read]\<rparr>"

text \<open>\<^verbatim>\<open>LibXR::Thread::Sleep(milliseconds)\<close>\<close>

definition Sleep :: "32 word \<Rightarrow> world \<Rightarrow> world" where
  "Sleep milliseconds w = w\<lparr>calls := calls w @ [Thread_Sleep milliseconds]\<rparr>"

text \<open>\<^verbatim>\<open>dr16->cmd_tp_.Publish(data)\<close>\<close>

definition Publish :: "Data \<Rightarrow> world \<Rightarrow> world" where
  "Publish data w = w\<lparr>calls := calls w @ [Topic_Publish data]\<rparr>"

text \<open>
  One pass through the body of \<^verbatim>\<open>while (true)\<close>, lines 135 to 144. The flag
  \<open>LIBXR_DEBUG_BUILD\<close> says whether the macro of that name is defined.
\<close>

definition Thread_Dr16_body :: "bool \<Rightarrow> world \<Rightarrow> world" where
  "Thread_Dr16_body LIBXR_DEBUG_BUILD w =
    (let w1 = Read w;
         (corrupted, this) = DataCorrupted (dr16 w1);
         w2 = w1\<lparr>dr16 := this\<rparr>
     in if corrupted then Sleep 3 (Reset w2)
        else
          (let w3 =
             (if LIBXR_DEBUG_BUILD
              then w2\<lparr>dr16 := (dr16 w2)
                     \<lparr>data_view_fld :=
                        DataviewToData (data_view_fld (dr16 w2)) (data_fld (dr16 w2))\<rparr>\<rparr>
              else w2)
           in Publish (data_fld (dr16 w3)) w3))"

text \<open>
  The loop \<^verbatim>\<open>while (true)\<close>, lines 134 to 145, run for a bounded number of
  passes. Its condition is the constant \<^verbatim>\<open>true\<close> and its body has no \<^verbatim>\<open>break\<close>
  and no \<^verbatim>\<open>return\<close>. The outcome \<open>Returns w\<close> stands for a call that has left
  the loop and reached the end of the function in the state \<open>w\<close>;
  \<open>Still_looping w\<close> for a call that has made as many passes as the bound
  allows and stands at the head of the loop, about to test the condition again,
  in the state \<open>w\<close>.
\<close>

datatype outcome = Returns world | Still_looping world

primrec Thread_Dr16_loop :: "nat \<Rightarrow> bool \<Rightarrow> world \<Rightarrow> outcome" where
  "Thread_Dr16_loop 0 LIBXR_DEBUG_BUILD w = Still_looping w"
| "Thread_Dr16_loop (Suc passes) LIBXR_DEBUG_BUILD w =
     (if True
      then Thread_Dr16_loop passes LIBXR_DEBUG_BUILD (Thread_Dr16_body LIBXR_DEBUG_BUILD w)
      else Returns w)"

text \<open>The thread function: one \<^verbatim>\<open>Reset\<close> (line 132), then the loop.\<close>

definition Thread_Dr16 :: "nat \<Rightarrow> bool \<Rightarrow> world \<Rightarrow> outcome" where
  "Thread_Dr16 passes LIBXR_DEBUG_BUILD w =
     Thread_Dr16_loop passes LIBXR_DEBUG_BUILD (Reset w)"

text \<open>The frames handed to \<^verbatim>\<open>Publish\<close> in a record of calls, in order.\<close>

fun published :: "call list \<Rightarrow> Data list" where
  "published [] = []"
| "published (Topic_Publish d # cs) = d # published cs"
| "published (c # cs) = published cs"

section \<open>The object representation of \<^verbatim>\<open>Data\<close> (lines 88 to 102)\<close>

text \<open>
  The module has no decoding routine: \<^verbatim>\<open>Read\<close> fills the bytes of \<^verbatim>\<open>data_\<close> and the
  members are read back through the struct. What the bytes mean is therefore
  fixed by the declaration and by the compiler's layout of a struct marked
  \<^verbatim>\<open>__attribute__((packed))\<close>. The layout rule modelled here is the one of GCC on
  a little-endian target, the toolchain the attribute belongs to: a bit-field
  starts at the bit where its predecessor ends, whatever its declared type; a
  member that is not a bit-field starts at the next byte boundary; bits are
  numbered from the least significant bit of the first byte; the size is the end
  of the last member rounded up to whole bytes.
\<close>

subsection \<open>The declaration\<close>

datatype ctype = uint8_t | uint16_t | int16_t

fun bits_of :: "ctype \<Rightarrow> nat" where
  "bits_of uint8_t = 8"
| "bits_of uint16_t = 16"
| "bits_of int16_t = 16"

fun is_signed :: "ctype \<Rightarrow> bool" where
  "is_signed uint8_t = False"
| "is_signed uint16_t = False"
| "is_signed int16_t = True"

text \<open>A member: its type, its name and, for a bit-field, its width.\<close>

record member =
  m_type :: ctype
  m_name :: string
  m_width :: "nat option"

definition Data_members :: "member list" where
  "Data_members =
    [ \<lparr>m_type = uint16_t, m_name = ''ch_r_x'', m_width = Some 11\<rparr>,
      \<lparr>m_type = uint16_t, m_name = ''ch_r_y'', m_width = Some 11\<rparr>,
      \<lparr>m_type = uint16_t, m_name = ''ch_l_x'', m_width = Some 11\<rparr>,
      \<lparr>m_type = uint16_t, m_name = ''ch_l_y'', m_width = Some 11\<rparr>,
      \<lparr>m_type = uint8_t, m_name = ''sw_r'', m_width = Some 2\<rparr>,
      \<lparr>m_type = uint8_t, m_name = ''sw_l'', m_width = Some 2\<rparr>,
      \<lparr>m_type = int16_t, m_name = ''x'', m_width = None\<rparr>,
      \<lparr>m_type = int16_t, m_name = ''y'', m_width = None\<rparr>,
      \<lparr>m_type = int16_t, m_name = ''z'', m_width = None\<rparr>,
      \<lparr>m_type = uint8_t, m_name = ''press_l'', m_width = None\<rparr>,
      \<lparr>m_type = uint8_t, m_name = ''press_r'', m_width = None\<rparr>,
      \<lparr>m_type = uint16_t, m_name = ''key'', m_width = None\<rparr>,
      \<lparr>m_type = uint16_t, m_name = ''res'', m_width = None\<rparr> ]"

subsection \<open>The packed layout\<close>

definition width_of :: "member \<Rightarrow> nat" where
  "width_of m = (case m_width m of Some n \<Rightarrow> n | None \<Rightarrow> bits_of (m_type m))"

text \<open>
  The bit offset of every member, followed by the bit offset at which the last
  member ends.
\<close>

fun packed_offsets :: "nat \<Rightarrow> member list \<Rightarrow> nat list" where
  "packed_offsets off [] = [off]"
| "packed_offsets off (m # ms) =
    (let start = (case m_width m of Some n \<Rightarrow> off | None \<Rightarrow> 8 * ((off + 7) div 8))
     in start # packed_offsets (start + width_of m) ms)"

definition sizeof_packed :: "member list \<Rightarrow> nat" where
  "sizeof_packed ms = (last (packed_offsets 0 ms) + 7) div 8"

text \<open>The bit offset of the \<open>i\<close>-th member of \<^verbatim>\<open>Data\<close>, counted from 0.\<close>

definition Data_offset :: "nat \<Rightarrow> nat" where
  "Data_offset i = packed_offsets 0 Data_members ! i"

subsection \<open>Reading and writing members\<close>

text \<open>
  The 18 bytes of the object as one 144-bit number, byte 0 least significant.
  A member of \<open>n\<close> bits at bit offset \<open>off\<close> is the \<open>n\<close> bits from \<open>off\<close> upwards.
\<close>

type_synonym image = "144 word"

definition load :: "nat \<Rightarrow> image \<Rightarrow> 'a::len word" where
  "load off m = ucast (drop_bit off m)"

definition store :: "nat \<Rightarrow> 'a::len word \<Rightarrow> image" where
  "store off v = push_bit off (ucast v)"

fun image_of_bytes :: "8 word list \<Rightarrow> image" where
  "image_of_bytes [] = 0"
| "image_of_bytes (b # bs) = ucast b OR push_bit 8 (image_of_bytes bs)"

definition bytes_of_image :: "image \<Rightarrow> 8 word list" where
  "bytes_of_image m = map (\<lambda>i. ucast (drop_bit (8 * i) m)) [0 ..< 18]"

text \<open>Writing every member into an object that starts out as zeros.\<close>

definition image_of_Data :: "Data \<Rightarrow> image" where
  "image_of_Data d =
     store (Data_offset 0) (ch_r_x d) OR store (Data_offset 1) (ch_r_y d) OR
     store (Data_offset 2) (ch_l_x d) OR store (Data_offset 3) (ch_l_y d) OR
     store (Data_offset 4) (sw_r d) OR store (Data_offset 5) (sw_l d) OR
     store (Data_offset 6) (x_fld d) OR store (Data_offset 7) (y_fld d) OR
     store (Data_offset 8) (z_fld d) OR
     store (Data_offset 9) (press_l d) OR store (Data_offset 10) (press_r d) OR
     store (Data_offset 11) (key d) OR store (Data_offset 12) (res d)"

text \<open>Reading every member.\<close>

definition Data_of_image :: "image \<Rightarrow> Data" where
  "Data_of_image m =
    \<lparr> ch_r_x = load (Data_offset 0) m, ch_r_y = load (Data_offset 1) m,
      ch_l_x = load (Data_offset 2) m, ch_l_y = load (Data_offset 3) m,
      sw_r = load (Data_offset 4) m, sw_l = load (Data_offset 5) m,
      x_fld = load (Data_offset 6) m, y_fld = load (Data_offset 7) m,
      z_fld = load (Data_offset 8) m,
      press_l = load (Data_offset 9) m, press_r = load (Data_offset 10) m,
      key = load (Data_offset 11) m, res = load (Data_offset 12) m \<rparr>"

text \<open>
  Encoding a frame into its bytes, and decoding a block of bytes into a frame.
  A block of any other size than the object's 18 bytes is no frame.
\<close>

definition Data_to_bytes :: "Data \<Rightarrow> 8 word list" where
  "Data_to_bytes d = bytes_of_image (image_of_Data d)"

definition Data_from_bytes :: "8 word list \<Rightarrow> Data option" where
  "Data_from_bytes bs =
    (if length bs = 18 then Some (Data_of_image (image_of_bytes bs)) else None)"

section \<open>Frames used by the closed examples\<close>

text \<open>
  The frame of the specification's tests: all four channels at the centre value
  1024, both switches at 1, everything else 0; and an all-zero debug view.
\<close>

definition neutral_frame :: Data where
  "neutral_frame =
    \<lparr> ch_r_x = 1024, ch_r_y = 1024, ch_l_x = 1024, ch_l_y = 1024,
      sw_r = 1, sw_l = 1, x_fld = 0, y_fld = 0, z_fld = 0,
      press_l = 0, press_r = 0, key = 0, res = 0 \<rparr>"

definition blank_view :: DataView where
  "blank_view =
    \<lparr> ch_r_x_v = 0, ch_r_y_v = 0, ch_l_x_v = 0, ch_l_y_v = 0,
      sw_r_v = 0, sw_l_v = 0, x_v = 0, y_v = 0, z_v = 0,
      press_l_v = 0, press_r_v = 0, key_v = 0, res_v = 0 \<rparr>"

text \<open>The rejected frame of the tests: the neutral frame with \<^verbatim>\<open>ch_r_x\<close> at 300.\<close>

definition rejected_frame :: Data where
  "rejected_frame = neutral_frame\<lparr>ch_r_x := 300\<rparr>"

text \<open>
  A world for the closed examples: an object holding the neutral frame, a
  transport that delivers the frame \<open>d\<close> over and over, and no call made yet.
\<close>

definition example_world :: "Data \<Rightarrow> world" where
  "example_world d =
    \<lparr> dr16 = \<lparr>data_fld = neutral_frame, data_view_fld = blank_view\<rparr>,
      rx = sconst d, calls = [] \<rparr>"


section \<open>Properties of the validator\<close>

lemma unat_channel_promoted:
  "unat (ucast (c :: 11 word) :: 32 word) = unat c"
proof -
  have "unat c < 2 ^ 11"
    using unsigned_less [of c] by simp
  then have "unat c < 2 ^ LENGTH(32)"
    by simp
  then show ?thesis
    by (simp add: unsigned_ucast_eq take_bit_nat_eq_self)
qed

lemma channel_below_min:
  "(ucast (c :: 11 word) :: 32 word) < DR16_CH_VALUE_MIN \<longleftrightarrow> unat c < 364"
  by (simp add: DR16_CH_VALUE_MIN_def word_less_nat_alt unat_channel_promoted)

lemma channel_above_max:
  "(ucast (c :: 11 word) :: 32 word) > DR16_CH_VALUE_MAX \<longleftrightarrow> 1684 < unat c"
  by (simp add: DR16_CH_VALUE_MAX_def word_less_nat_alt unat_channel_promoted)

lemma switch_promoted_zero:
  "uint (s :: 2 word) = 0 \<longleftrightarrow> s = 0"
  by (simp add: uint_0_iff)

lemma DataCorrupted_verdict:
  "fst (DataCorrupted this) \<longleftrightarrow>
     unat (ch_r_x (data_fld this)) < 364 \<or> 1684 < unat (ch_r_x (data_fld this)) \<or>
     unat (ch_r_y (data_fld this)) < 364 \<or> 1684 < unat (ch_r_y (data_fld this)) \<or>
     unat (ch_l_x (data_fld this)) < 364 \<or> 1684 < unat (ch_l_x (data_fld this)) \<or>
     unat (ch_l_y (data_fld this)) < 364 \<or> 1684 < unat (ch_l_y (data_fld this)) \<or>
     sw_l (data_fld this) = 0 \<or> sw_r (data_fld this) = 0"
  unfolding DataCorrupted_def channel_below_min channel_above_max switch_promoted_zero
  by auto

text \<open>
  Claim C1. The validator reports a frame corrupted exactly when one of the four
  channels \<^verbatim>\<open>ch_r_x\<close>, \<^verbatim>\<open>ch_r_y\<close>, \<^verbatim>\<open>ch_l_x\<close>, \<^verbatim>\<open>ch_l_y\<close> is strictly below 364
  or strictly above 1684, or \<^verbatim>\<open>sw_l\<close> is 0, or \<^verbatim>\<open>sw_r\<close> is 0; a frame that passes
  all six checks is reported sound. The bounds are strict, so 364 and 1684 pass
  and 363 and 1685 fail, for each channel on its own.
\<close>

theorem DataCorrupted_iff_out_of_range:
  "fst (DataCorrupted this) \<longleftrightarrow>
     (unat (ch_r_x (data_fld this)) < 364 \<or> 1684 < unat (ch_r_x (data_fld this))) \<or>
     (unat (ch_r_y (data_fld this)) < 364 \<or> 1684 < unat (ch_r_y (data_fld this))) \<or>
     (unat (ch_l_x (data_fld this)) < 364 \<or> 1684 < unat (ch_l_x (data_fld this))) \<or>
     (unat (ch_l_y (data_fld this)) < 364 \<or> 1684 < unat (ch_l_y (data_fld this))) \<or>
     sw_l (data_fld this) = 0 \<or> sw_r (data_fld this) = 0"
  using DataCorrupted_verdict [of this] by blast

text \<open>
  The boundary cases on the neutral frame, one member changed at a time: each
  channel at 363, 364, 1684 and 1685, and each switch at 0, 1, 2 and 3.
\<close>

lemma DataCorrupted_channel_boundaries:
  "map (\<lambda>v. fst (DataCorrupted
      \<lparr>data_fld = neutral_frame\<lparr>ch_r_x := v\<rparr>, data_view_fld = blank_view\<rparr>))
    [363, 364, 1684, 1685] = [True, False, False, True]"
  "map (\<lambda>v. fst (DataCorrupted
      \<lparr>data_fld = neutral_frame\<lparr>ch_r_y := v\<rparr>, data_view_fld = blank_view\<rparr>))
    [363, 364, 1684, 1685] = [True, False, False, True]"
  "map (\<lambda>v. fst (DataCorrupted
      \<lparr>data_fld = neutral_frame\<lparr>ch_l_x := v\<rparr>, data_view_fld = blank_view\<rparr>))
    [363, 364, 1684, 1685] = [True, False, False, True]"
  "map (\<lambda>v. fst (DataCorrupted
      \<lparr>data_fld = neutral_frame\<lparr>ch_l_y := v\<rparr>, data_view_fld = blank_view\<rparr>))
    [363, 364, 1684, 1685] = [True, False, False, True]"
  by (simp_all add: DataCorrupted_verdict neutral_frame_def)

lemma DataCorrupted_switch_values:
  "map (\<lambda>v. fst (DataCorrupted
      \<lparr>data_fld = neutral_frame\<lparr>sw_l := v\<rparr>, data_view_fld = blank_view\<rparr>))
    [0, 1, 2, 3] = [True, False, False, False]"
  "map (\<lambda>v. fst (DataCorrupted
      \<lparr>data_fld = neutral_frame\<lparr>sw_r := v\<rparr>, data_view_fld = blank_view\<rparr>))
    [0, 1, 2, 3] = [True, False, False, False]"
  by (simp_all add: DataCorrupted_verdict neutral_frame_def)

text \<open>
  Claim C7. The verdict depends only on the four channels and the two switches:
  two objects whose frames agree on these six members get the same verdict,
  whatever their pointer-motion, button, key and reserved members (and their
  debug views) hold.
\<close>

theorem DataCorrupted_ignores_other_fields:
  assumes "ch_r_x (data_fld a) = ch_r_x (data_fld b)"
    and "ch_r_y (data_fld a) = ch_r_y (data_fld b)"
    and "ch_l_x (data_fld a) = ch_l_x (data_fld b)"
    and "ch_l_y (data_fld a) = ch_l_y (data_fld b)"
    and "sw_l (data_fld a) = sw_l (data_fld b)"
    and "sw_r (data_fld a) = sw_r (data_fld b)"
  shows "fst (DataCorrupted a) = fst (DataCorrupted b)"
  using assms by (simp add: DataCorrupted_verdict)

theorem DataCorrupted_ignores_other_fields_witness:
  "fst (DataCorrupted \<lparr>data_fld = neutral_frame, data_view_fld = blank_view\<rparr>) =
   fst (DataCorrupted
     \<lparr>data_fld = neutral_frame
        \<lparr>x_fld := 5, y_fld := - 3, z_fld := 1, press_l := 1, press_r := 1,
         key := 0xFFFF, res := 7\<rparr>,
      data_view_fld = DataviewToData blank_view neutral_frame\<rparr>)"
  using DataCorrupted_ignores_other_fields
    [of "\<lparr>data_fld = neutral_frame, data_view_fld = blank_view\<rparr>"
        "\<lparr>data_fld = neutral_frame
            \<lparr>x_fld := 5, y_fld := - 3, z_fld := 1, press_l := 1, press_r := 1,
             key := 0xFFFF, res := 7\<rparr>,
          data_view_fld = DataviewToData blank_view neutral_frame\<rparr>"]
  by simp

text \<open>
  Claim C9. Running the validator leaves the object, and with it every member of
  the frame, as it was: every branch hands back the object it received.
\<close>

theorem DataCorrupted_leaves_object_unchanged:
  "snd (DataCorrupted this) = this"
  by (simp add: DataCorrupted_def)

section \<open>Properties of the acquisition thread\<close>

lemma DataCorrupted_frame_only:
  "fst (DataCorrupted (this\<lparr>data_fld := d\<rparr>)) = fst (DataCorrupted (that\<lparr>data_fld := d\<rparr>))"
  by (simp add: DataCorrupted_verdict)

lemma DataCorrupted_snd: "snd (DataCorrupted this) = this"
  by (simp add: DataCorrupted_def)

lemma DataCorrupted_pair: "DataCorrupted this = (fst (DataCorrupted this), this)"
  using DataCorrupted_snd [of this] by (cases "DataCorrupted this") simp

lemma published_append: "published (xs @ ys) = published xs @ published ys"
  by (induction xs rule: published.induct) simp_all

lemma body_corrupted:
  assumes "fst (DataCorrupted ((dr16 w)\<lparr>data_fld := shd (rx w)\<rparr>))"
  shows "Thread_Dr16_body dbg w =
    w\<lparr>dr16 := (dr16 w)\<lparr>data_fld := shd (rx w)\<rparr>,
      rx := stl (rx w),
      calls := calls w @ [UART_Read, UART_Reset, Thread_Sleep 3]\<rparr>"
proof -
  have "DataCorrupted ((dr16 w)\<lparr>data_fld := shd (rx w)\<rparr>) = (True, (dr16 w)\<lparr>data_fld := shd (rx w)\<rparr>)"
    using assms DataCorrupted_pair [of "(dr16 w)\<lparr>data_fld := shd (rx w)\<rparr>"] by simp
  then show ?thesis
    by (simp add: Thread_Dr16_body_def Read_def Reset_def Sleep_def)
qed

lemma body_valid:
  assumes "\<not> fst (DataCorrupted ((dr16 w)\<lparr>data_fld := shd (rx w)\<rparr>))"
  shows "Thread_Dr16_body dbg w =
    w\<lparr>dr16 := (if dbg
         then (dr16 w)\<lparr>data_fld := shd (rx w),
                data_view_fld := DataviewToData (data_view_fld (dr16 w)) (shd (rx w))\<rparr>
         else (dr16 w)\<lparr>data_fld := shd (rx w)\<rparr>),
      rx := stl (rx w),
      calls := calls w @ [UART_Read, Topic_Publish (shd (rx w))]\<rparr>"
proof -
  have "DataCorrupted ((dr16 w)\<lparr>data_fld := shd (rx w)\<rparr>) = (False, (dr16 w)\<lparr>data_fld := shd (rx w)\<rparr>)"
    using assms DataCorrupted_pair [of "(dr16 w)\<lparr>data_fld := shd (rx w)\<rparr>"] by simp
  then show ?thesis
    by (simp add: Thread_Dr16_body_def Read_def Publish_def Let_def)
qed

lemma body_calls_prefix:
  "\<exists>cs. calls (Thread_Dr16_body dbg w) = calls w @ UART_Read # cs"
  by (cases "fst (DataCorrupted ((dr16 w)\<lparr>data_fld := shd (rx w)\<rparr>))")
     (simp_all add: body_corrupted body_valid)

lemma body_count_Read:
  "count_list (calls (Thread_Dr16_body dbg w)) UART_Read = Suc (count_list (calls w) UART_Read)"
  by (cases "fst (DataCorrupted ((dr16 w)\<lparr>data_fld := shd (rx w)\<rparr>))")
     (simp_all add: body_corrupted body_valid)

lemma body_publish_sound:
  assumes "Topic_Publish d \<in> set (calls (Thread_Dr16_body dbg w))"
  shows "Topic_Publish d \<in> set (calls w) \<or> \<not> fst (DataCorrupted (this\<lparr>data_fld := d\<rparr>))"
proof (cases "fst (DataCorrupted ((dr16 w)\<lparr>data_fld := shd (rx w)\<rparr>))")
  case True
  with assms show ?thesis by (simp add: body_corrupted)
next
  case False
  with assms have "Topic_Publish d \<in> set (calls w) \<or> d = shd (rx w)"
    by (auto simp add: body_valid)
  with False show ?thesis
    using DataCorrupted_frame_only [where this = this and d = "shd (rx w)" and that = "dr16 w"] by auto
qed

lemma iterate_publish_sound:
  "Topic_Publish d \<in> set (calls ((Thread_Dr16_body dbg ^^ n) w)) \<Longrightarrow>
   Topic_Publish d \<in> set (calls w) \<or> \<not> fst (DataCorrupted (this\<lparr>data_fld := d\<rparr>))"
proof (induction n)
  case 0
  then show ?case by simp
next
  case (Suc n)
  then show ?case
    using body_publish_sound [where d = d and dbg = dbg and w = "(Thread_Dr16_body dbg ^^ n) w" and this = this] by auto
qed

lemma iterate_count_Read:
  "count_list (calls ((Thread_Dr16_body dbg ^^ n) w)) UART_Read = count_list (calls w) UART_Read + n"
  by (induction n) (simp_all add: body_count_Read)

lemma loop_passes:
  "Thread_Dr16_loop n dbg w = Still_looping ((Thread_Dr16_body dbg ^^ n) w)"
  by (induction n arbitrary: w) (simp_all add: funpow_swap1)

lemma body_rx: "rx (Thread_Dr16_body dbg w) = stl (rx w)"
  by (cases "fst (DataCorrupted ((dr16 w)\<lparr>data_fld := shd (rx w)\<rparr>))")
     (simp_all add: body_corrupted body_valid)

lemma iterate_rx: "rx ((Thread_Dr16_body dbg ^^ n) w) = sdrop n (rx w)"
  by (induction n arbitrary: w) (simp_all add: body_rx funpow_swap1)

lemma concat_replicate_snoc:
  "concat (replicate (Suc n) xs) = concat (replicate n xs) @ xs"
proof -
  have "replicate (Suc n) xs = replicate n xs @ [xs]"
    by (simp add: replicate_append_same)
  then show ?thesis
    by (simp only: concat_append concat.simps append_Nil2)
qed

lemma iterate_all_corrupted:
  assumes "\<And>i. fst (DataCorrupted (this\<lparr>data_fld := rx w !! i\<rparr>))"
  shows "calls ((Thread_Dr16_body dbg ^^ n) w) =
    calls w @ concat (replicate n [UART_Read, UART_Reset, Thread_Sleep 3])"
proof (induction n)
  case 0
  then show ?case by simp
next
  case (Suc n)
  let ?s = "(Thread_Dr16_body dbg ^^ n) w"
  have "shd (rx ?s) = rx w !! n"
    by (simp add: iterate_rx sdrop_simps)
  then have "fst (DataCorrupted ((dr16 ?s)\<lparr>data_fld := shd (rx ?s)\<rparr>))"
    using assms [of n] DataCorrupted_frame_only [where this = this and d = "rx w !! n" and that = "dr16 ?s"]
    by simp
  then have "calls (Thread_Dr16_body dbg ?s) = calls ?s @ [UART_Read, UART_Reset, Thread_Sleep 3]"
    by (simp add: body_corrupted)
  with Suc show ?case
    by (simp only: funpow.simps o_apply concat_replicate_snoc append_assoc)
qed

lemma example_world_sel:
  "dr16 (example_world d) = \<lparr>data_fld = neutral_frame, data_view_fld = blank_view\<rparr>"
  "rx (example_world d) = sconst d"
  "calls (example_world d) = []"
  by (simp_all add: example_world_def)

lemma neutral_frame_sound: "data_fld this = neutral_frame \<Longrightarrow> \<not> fst (DataCorrupted this)"
  by (simp add: DataCorrupted_verdict neutral_frame_def)

lemma rejected_frame_corrupted: "data_fld this = rejected_frame \<Longrightarrow> fst (DataCorrupted this)"
  by (simp add: DataCorrupted_verdict neutral_frame_def rejected_frame_def)

text \<open>
  Claim C2. In every pass of the loop, \<^verbatim>\<open>Publish\<close> is called exactly once, with
  the frame just read, when that frame passes the validator, and is not called
  when it fails; over any number of passes, every frame handed to \<^verbatim>\<open>Publish\<close>
  passes the validator.
\<close>

theorem Thread_Dr16_publishes_valid_frames_only:
  "(\<not> fst (DataCorrupted ((dr16 w)\<lparr>data_fld := shd (rx w)\<rparr>)) \<longrightarrow>
      calls (Thread_Dr16_body dbg w) = calls w @ [UART_Read, Topic_Publish (shd (rx w))] \<and>
      published (calls (Thread_Dr16_body dbg w)) = published (calls w) @ [shd (rx w)] \<and>
      data_fld (dr16 (Thread_Dr16_body dbg w)) = shd (rx w)) \<and>
   (fst (DataCorrupted ((dr16 w)\<lparr>data_fld := shd (rx w)\<rparr>)) \<longrightarrow>
      published (calls (Thread_Dr16_body dbg w)) = published (calls w)) \<and>
   (Topic_Publish d \<in> set (calls ((Thread_Dr16_body dbg ^^ n) w)) \<longrightarrow>
      Topic_Publish d \<in> set (calls w) \<or> \<not> fst (DataCorrupted (this\<lparr>data_fld := d\<rparr>)))"
  using iterate_publish_sound [where d = d and dbg = dbg and n = n and w = w and this = this]
  by (auto simp add: body_corrupted body_valid published_append)

theorem Thread_Dr16_publishes_valid_frames_only_witness:
  "calls (Thread_Dr16_body False (example_world neutral_frame)) =
     [UART_Read, Topic_Publish neutral_frame] \<and>
   published (calls (Thread_Dr16_body True (example_world rejected_frame))) = [] \<and>
   \<not> fst (DataCorrupted \<lparr>data_fld = neutral_frame, data_view_fld = blank_view\<rparr>)"
proof -
  let ?V = "example_world neutral_frame" and ?R = "example_world rejected_frame"
  let ?obj = "\<lparr>data_fld = rejected_frame, data_view_fld = blank_view\<rparr>"
  have v: "\<not> fst (DataCorrupted ((dr16 ?V)\<lparr>data_fld := shd (rx ?V)\<rparr>))"
    by (rule neutral_frame_sound) (simp add: example_world_sel)
  have r: "fst (DataCorrupted ((dr16 ?R)\<lparr>data_fld := shd (rx ?R)\<rparr>))"
    by (rule rejected_frame_corrupted) (simp add: example_world_sel)
  have p: "Topic_Publish neutral_frame \<in> set (calls ((Thread_Dr16_body False ^^ 1) ?V))"
    using v by (simp add: body_valid example_world_sel)
  note valid_case = Thread_Dr16_publishes_valid_frames_only [where w = ?V and dbg = False and n = 1
      and d = neutral_frame and this = ?obj]
  note corrupted_case = Thread_Dr16_publishes_valid_frames_only [where w = ?R and dbg = True and n = 1
      and d = neutral_frame and this = ?obj]
  from valid_case v p have
    "calls (Thread_Dr16_body False ?V) = calls ?V @ [UART_Read, Topic_Publish (shd (rx ?V))]"
    "Topic_Publish neutral_frame \<in> set (calls ?V) \<or>
      \<not> fst (DataCorrupted (?obj\<lparr>data_fld := neutral_frame\<rparr>))"
    by blast+
  moreover from corrupted_case r have
    "published (calls (Thread_Dr16_body True ?R)) = published (calls ?R)"
    by blast
  ultimately show ?thesis
    by (simp add: example_world_sel)
qed

text \<open>
  Claim C3. In every pass where the frame just read fails the validator, the
  recovery path runs once: the read port is reset, \<^verbatim>\<open>Sleep\<close> is called with 3,
  nothing is published, nothing else changes, and the next pass starts by
  reading the next frame.
\<close>

theorem Thread_Dr16_recovers_from_corrupted_frame:
  assumes "fst (DataCorrupted ((dr16 w)\<lparr>data_fld := shd (rx w)\<rparr>))"
  shows "Thread_Dr16_body dbg w =
      w\<lparr>dr16 := (dr16 w)\<lparr>data_fld := shd (rx w)\<rparr>,
        rx := stl (rx w),
        calls := calls w @ [UART_Read, UART_Reset, Thread_Sleep 3]\<rparr> \<and>
    published (calls (Thread_Dr16_body dbg w)) = published (calls w) \<and>
    (\<exists>cs. calls (Thread_Dr16_body dbg (Thread_Dr16_body dbg w)) =
       calls (Thread_Dr16_body dbg w) @ UART_Read # cs)"
  using assms body_calls_prefix [of dbg "Thread_Dr16_body dbg w"]
  by (simp add: body_corrupted published_append)

theorem Thread_Dr16_recovers_from_corrupted_frame_witness:
  "calls (Thread_Dr16_body False (example_world rejected_frame)) =
     [UART_Read, UART_Reset, Thread_Sleep 3] \<and>
   published (calls (Thread_Dr16_body False (example_world rejected_frame))) = []"
proof -
  let ?R = "example_world rejected_frame"
  have r: "fst (DataCorrupted ((dr16 ?R)\<lparr>data_fld := shd (rx ?R)\<rparr>))"
    by (rule rejected_frame_corrupted) (simp add: example_world_sel)
  from Thread_Dr16_recovers_from_corrupted_frame [OF r, of False] have
    "Thread_Dr16_body False ?R =
      ?R\<lparr>dr16 := (dr16 ?R)\<lparr>data_fld := shd (rx ?R)\<rparr>, rx := stl (rx ?R),
        calls := calls ?R @ [UART_Read, UART_Reset, Thread_Sleep 3]\<rparr>"
    "published (calls (Thread_Dr16_body False ?R)) = published (calls ?R)"
    by blast+
  then show ?thesis
    by (simp add: example_world_sel)
qed

text \<open>
  Claim C8. The loop has no terminal state. Whatever the number \<open>n\<close> of passes
  allowed, the thread function has not returned: it has made exactly \<open>n\<close> passes
  through the body and stands at the head of the loop, having issued exactly \<open>n\<close>
  reads since it entered the loop; allowed one pass more, it makes that pass from
  the very state it had reached. When every frame the transport delivers is
  corrupted, the \<open>n\<close> passes are \<open>n\<close> recoveries and the next pass is one more
  recovery: the loop keeps retrying.
\<close>

theorem Thread_Dr16_never_returns:
  "Thread_Dr16 n dbg w = Still_looping ((Thread_Dr16_body dbg ^^ n) (Reset w)) \<and>
   Thread_Dr16 n dbg w \<noteq> Returns r \<and>
   (\<exists>s'. Thread_Dr16_loop n dbg s = Still_looping s' \<and>
      s' = (Thread_Dr16_body dbg ^^ n) s \<and>
      count_list (calls s') UART_Read = count_list (calls s) UART_Read + n \<and>
      Thread_Dr16_loop (Suc n) dbg s = Still_looping (Thread_Dr16_body dbg s') \<and>
      (\<exists>cs. calls (Thread_Dr16_body dbg s') = calls s' @ UART_Read # cs) \<and>
      ((\<forall>i. fst (DataCorrupted (this\<lparr>data_fld := rx s !! i\<rparr>))) \<longrightarrow>
         calls s' = calls s @ concat (replicate n [UART_Read, UART_Reset, Thread_Sleep 3]) \<and>
         calls (Thread_Dr16_body dbg s') =
           calls s' @ [UART_Read, UART_Reset, Thread_Sleep 3]))"
proof -
  let ?s' = "(Thread_Dr16_body dbg ^^ n) s"
  have next_pass: "Thread_Dr16_loop (Suc n) dbg s = Still_looping (Thread_Dr16_body dbg ?s')"
    using loop_passes [of "Suc n" dbg s] by simp
  have retry: "calls ?s' = calls s @ concat (replicate n [UART_Read, UART_Reset, Thread_Sleep 3]) \<and>
      calls (Thread_Dr16_body dbg ?s') = calls ?s' @ [UART_Read, UART_Reset, Thread_Sleep 3]"
    if bad: "\<forall>i. fst (DataCorrupted (this\<lparr>data_fld := rx s !! i\<rparr>))"
  proof -
    have "calls ((Thread_Dr16_body dbg ^^ k) s) =
        calls s @ concat (replicate k [UART_Read, UART_Reset, Thread_Sleep 3])" for k
      using bad iterate_all_corrupted [where this = this and w = s and dbg = dbg and n = k]
      by simp
    from this [of n] this [of "Suc n"] show ?thesis
      by (simp add: concat_replicate_snoc del: replicate_Suc replicate.simps)
  qed
  show ?thesis
    using next_pass retry body_calls_prefix [of dbg ?s']
    by (simp add: Thread_Dr16_def loop_passes iterate_count_Read)
qed

theorem Thread_Dr16_never_returns_witness:
  "Thread_Dr16_loop 3 False (example_world rejected_frame) =
     Still_looping ((Thread_Dr16_body False ^^ 3) (example_world rejected_frame)) \<and>
   calls ((Thread_Dr16_body False ^^ 3) (example_world rejected_frame)) =
     [UART_Read, UART_Reset, Thread_Sleep 3, UART_Read, UART_Reset, Thread_Sleep 3,
      UART_Read, UART_Reset, Thread_Sleep 3] \<and>
   calls (Thread_Dr16_body False ((Thread_Dr16_body False ^^ 3) (example_world rejected_frame))) =
     [UART_Read, UART_Reset, Thread_Sleep 3, UART_Read, UART_Reset, Thread_Sleep 3,
      UART_Read, UART_Reset, Thread_Sleep 3, UART_Read, UART_Reset, Thread_Sleep 3] \<and>
   Thread_Dr16 3 False (example_world rejected_frame) \<noteq>
     Returns (example_world rejected_frame)"
proof -
  let ?R = "example_world rejected_frame"
  let ?obj = "\<lparr>data_fld = neutral_frame, data_view_fld = blank_view\<rparr>"
  have r: "\<forall>i. fst (DataCorrupted (?obj\<lparr>data_fld := rx ?R !! i\<rparr>))"
    by (simp add: example_world_sel rejected_frame_corrupted)
  from Thread_Dr16_never_returns [where s = ?R and dbg = False and n = 3 and this = ?obj
      and w = ?R and r = ?R] r
  have "Thread_Dr16_loop 3 False ?R = Still_looping ((Thread_Dr16_body False ^^ 3) ?R)"
    and "calls ((Thread_Dr16_body False ^^ 3) ?R) =
      calls ?R @ concat (replicate 3 [UART_Read, UART_Reset, Thread_Sleep 3])"
    and "calls (Thread_Dr16_body False ((Thread_Dr16_body False ^^ 3) ?R)) =
      calls ((Thread_Dr16_body False ^^ 3) ?R) @ [UART_Read, UART_Reset, Thread_Sleep 3]"
    and "Thread_Dr16 3 False ?R \<noteq> Returns ?R"
    by blast+
  then show ?thesis
    by (simp add: example_world_sel numeral_3_eq_3)
qed

text \<open>
  A build with \<^verbatim>\<open>LIBXR_DEBUG_BUILD\<close> makes the same calls, reads the same frames
  and keeps the same frame in \<^verbatim>\<open>data_\<close> as a build without it.
\<close>

theorem debug_build_makes_the_same_calls:
  "calls (Thread_Dr16_body True w) = calls (Thread_Dr16_body False w) \<and>
   rx (Thread_Dr16_body True w) = rx (Thread_Dr16_body False w) \<and>
   data_fld (dr16 (Thread_Dr16_body True w)) = data_fld (dr16 (Thread_Dr16_body False w))"
  by (cases "fst (DataCorrupted ((dr16 w)\<lparr>data_fld := shd (rx w)\<rparr>))")
     (simp_all add: body_corrupted body_valid)

section \<open>Properties of the object representation\<close>

lemma Data_offsets:
  "packed_offsets 0 Data_members =
     [0, 11, 22, 33, 44, 46, 48, 64, 80, 96, 104, 112, 128, 144]"
  by (simp add: Data_members_def width_of_def)

lemma Data_offset_values:
  "Data_offset 0 = 0" "Data_offset 1 = 11" "Data_offset 2 = 22" "Data_offset 3 = 33"
  "Data_offset 4 = 44" "Data_offset 5 = 46" "Data_offset 6 = 48" "Data_offset 7 = 64"
  "Data_offset 8 = 80" "Data_offset 9 = 96" "Data_offset 10 = 104"
  "Data_offset 11 = 112" "Data_offset 12 = 128" "Data_offset (Suc 0) = 11"
  by (simp_all add: Data_offset_def Data_offsets)

lemma sizeof_Data: "sizeof_packed Data_members = 18"
  by (simp add: sizeof_packed_def Data_offsets)

text \<open>
  Claim C4. The frame occupies exactly 18 bytes and every one of its 144 bits
  belongs to a member: four unsigned 11-bit channels, two unsigned 2-bit
  switches, three signed 16-bit pointer-motion members, two 8-bit button
  members, the 16-bit key mask and the 16-bit reserved member, in this order,
  each starting at the bit where its predecessor ends.
\<close>

theorem Data_layout_is_18_bytes_without_padding:
  "sizeof_packed Data_members = 18 \<and>
   sum_list (map width_of Data_members) = 8 * sizeof_packed Data_members \<and>
   map (\<lambda>m. (m_name m, is_signed (m_type m), width_of m)) Data_members =
     [(''ch_r_x'', False, 11), (''ch_r_y'', False, 11),
      (''ch_l_x'', False, 11), (''ch_l_y'', False, 11),
      (''sw_r'', False, 2), (''sw_l'', False, 2),
      (''x'', True, 16), (''y'', True, 16), (''z'', True, 16),
      (''press_l'', False, 8), (''press_r'', False, 8),
      (''key'', False, 16), (''res'', False, 16)] \<and>
   packed_offsets 0 Data_members =
     [0, 11, 22, 33, 44, 46, 48, 64, 80, 96, 104, 112, 128, 144]"
proof -
  have "sum_list (map width_of Data_members) = 144"
    by (simp add: Data_members_def width_of_def)
  moreover have "map (\<lambda>m. (m_name m, is_signed (m_type m), width_of m)) Data_members =
     [(''ch_r_x'', False, 11), (''ch_r_y'', False, 11),
      (''ch_l_x'', False, 11), (''ch_l_y'', False, 11),
      (''sw_r'', False, 2), (''sw_l'', False, 2),
      (''x'', True, 16), (''y'', True, 16), (''z'', True, 16),
      (''press_l'', False, 8), (''press_r'', False, 8),
      (''key'', False, 16), (''res'', False, 16)]"
    by (simp add: Data_members_def width_of_def)
  ultimately show ?thesis
    by (simp add: sizeof_Data Data_offsets)
qed

lemma load_store_same:
  "off + LENGTH('a) \<le> 144 \<Longrightarrow> load off (store off (v :: 'a::len word)) = v"
  unfolding load_def store_def
  by (rule bit_word_eqI) (auto simp add: bit_simps dest: bit_imp_le_length)

lemma load_store_other:
  "off' + LENGTH('b) \<le> off \<or> off + LENGTH('a) \<le> off' \<Longrightarrow>
   (load off (store off' (v :: 'b::len word)) :: 'a::len word) = 0"
  unfolding load_def store_def
  by (rule bit_word_eqI) (auto simp add: bit_simps dest: bit_imp_le_length)

lemma load_or: "load off (a OR b) = (load off a OR load off b :: 'a::len word)"
  unfolding load_def
  by (rule bit_word_eqI) (auto simp add: bit_simps)

lemma image_of_bytes_upt:
  "image_of_bytes (map (\<lambda>i. ucast (drop_bit (8 * i) m)) [j ..< j + k]) =
   take_bit (8 * k) (drop_bit (8 * j) (m :: image))"
proof (induction k arbitrary: j)
  case 0
  then show ?case by simp
next
  case (Suc k)
  have "[j ..< j + Suc k] = j # [Suc j ..< Suc j + k]"
    by (simp add: upt_conv_Cons)
  then have "image_of_bytes (map (\<lambda>i. ucast (drop_bit (8 * i) m)) [j ..< j + Suc k]) =
    ucast (ucast (drop_bit (8 * j) m) :: 8 word) OR
    push_bit 8 (take_bit (8 * k) (drop_bit (8 * Suc j) m))"
    using Suc.IH [of "Suc j"] by simp
  also have "\<dots> = take_bit (8 * Suc k) (drop_bit (8 * j) m)"
    by (rule bit_word_eqI) (auto simp add: bit_simps)
  finally show ?case .
qed

lemma image_of_bytes_of_image: "image_of_bytes (bytes_of_image m) = m"
proof -
  have "take_bit LENGTH(144) m = m"
    by (rule take_bit_length_eq)
  then show ?thesis
    using image_of_bytes_upt [of m 0 18] by (simp add: bytes_of_image_def)
qed

lemmas load_image_of_Data =
  Data_of_image_def image_of_Data_def Data_offset_values load_or load_store_same load_store_other

lemma Data_of_image_of_Data: "Data_of_image (image_of_Data d) = d"
proof -
  have "ch_r_x (Data_of_image (image_of_Data d)) = ch_r_x d"
    by (simp add: load_image_of_Data)
  moreover have "ch_r_y (Data_of_image (image_of_Data d)) = ch_r_y d"
    by (simp add: load_image_of_Data)
  moreover have "ch_l_x (Data_of_image (image_of_Data d)) = ch_l_x d"
    by (simp add: load_image_of_Data)
  moreover have "ch_l_y (Data_of_image (image_of_Data d)) = ch_l_y d"
    by (simp add: load_image_of_Data)
  moreover have "sw_r (Data_of_image (image_of_Data d)) = sw_r d"
    by (simp add: load_image_of_Data)
  moreover have "sw_l (Data_of_image (image_of_Data d)) = sw_l d"
    by (simp add: load_image_of_Data)
  moreover have "x_fld (Data_of_image (image_of_Data d)) = x_fld d"
    by (simp add: load_image_of_Data)
  moreover have "y_fld (Data_of_image (image_of_Data d)) = y_fld d"
    by (simp add: load_image_of_Data)
  moreover have "z_fld (Data_of_image (image_of_Data d)) = z_fld d"
    by (simp add: load_image_of_Data)
  moreover have "press_l (Data_of_image (image_of_Data d)) = press_l d"
    by (simp add: load_image_of_Data)
  moreover have "press_r (Data_of_image (image_of_Data d)) = press_r d"
    by (simp add: load_image_of_Data)
  moreover have "key (Data_of_image (image_of_Data d)) = key d"
    by (simp add: load_image_of_Data)
  moreover have "res (Data_of_image (image_of_Data d)) = res d"
    by (simp add: load_image_of_Data)
  ultimately show ?thesis
    by (intro Data.equality) simp_all
qed

lemma length_Data_to_bytes: "length (Data_to_bytes d) = 18"
  by (simp add: Data_to_bytes_def bytes_of_image_def)

text \<open>
  Claim C5. A frame's members have the widths of their types, so every frame is
  representable. Encoding a frame gives 18 bytes, and decoding them gives the
  frame back, member for member. Decoding succeeds on every block of 18 bytes
  and checks nothing: the frames the validator rejects are encoded and decoded
  like the others.
\<close>

theorem Data_bytes_round_trip:
  "length (Data_to_bytes d) = 18 \<and>
   Data_from_bytes (Data_to_bytes d) = Some d \<and>
   (length bs = 18 \<longrightarrow> (\<exists>d'. Data_from_bytes bs = Some d')) \<and>
   (fst (DataCorrupted this) \<longrightarrow>
      Data_from_bytes (Data_to_bytes (data_fld this)) = Some (data_fld this))"
proof -
  have "Data_from_bytes (Data_to_bytes f) = Some f" for f
    by (simp add: Data_from_bytes_def length_Data_to_bytes)
       (simp add: Data_to_bytes_def image_of_bytes_of_image Data_of_image_of_Data)
  then show ?thesis
    by (simp add: length_Data_to_bytes Data_from_bytes_def)
qed

theorem Data_bytes_round_trip_witness:
  "Data_from_bytes (Data_to_bytes rejected_frame) = Some rejected_frame \<and>
   fst (DataCorrupted \<lparr>data_fld = rejected_frame, data_view_fld = blank_view\<rparr>) \<and>
   length (replicate 18 (0 :: 8 word)) = 18 \<and>
   (\<exists>d'. Data_from_bytes (replicate 18 0) = Some d')"
proof -
  let ?obj = "\<lparr>data_fld = rejected_frame, data_view_fld = blank_view\<rparr>"
  have r: "fst (DataCorrupted ?obj)"
    by (rule rejected_frame_corrupted) simp
  have l: "length (replicate 18 (0 :: 8 word)) = 18"
    by simp
  from Data_bytes_round_trip [where d = rejected_frame and bs = "replicate 18 0" and this = ?obj] r l
  show ?thesis
    by simp
qed

text \<open>
  The other direction: the members cover every bit of the object, so a block of
  18 bytes is given back by encoding the frame it decodes to.
\<close>

lemma take_bit_member:
  "take_bit (off + LENGTH('a)) (m :: image) =
     take_bit off m OR store off (load off m :: 'a::len word)"
  unfolding load_def store_def
  by (rule bit_word_eqI) (auto simp add: bit_simps dest: bit_imp_le_length)

lemma image_of_Data_of_image: "image_of_Data (Data_of_image m) = m"
proof -
  have s0: "take_bit 11 m = take_bit 0 m OR store 0 (load 0 m :: 11 word)"
    using take_bit_member [where off = 0 and m = m and 'a = 11] by simp
  have s1: "take_bit 22 m = take_bit 11 m OR store 11 (load 11 m :: 11 word)"
    using take_bit_member [where off = 11 and m = m and 'a = 11] by simp
  have s2: "take_bit 33 m = take_bit 22 m OR store 22 (load 22 m :: 11 word)"
    using take_bit_member [where off = 22 and m = m and 'a = 11] by simp
  have s3: "take_bit 44 m = take_bit 33 m OR store 33 (load 33 m :: 11 word)"
    using take_bit_member [where off = 33 and m = m and 'a = 11] by simp
  have s4: "take_bit 46 m = take_bit 44 m OR store 44 (load 44 m :: 2 word)"
    using take_bit_member [where off = 44 and m = m and 'a = 2] by simp
  have s5: "take_bit 48 m = take_bit 46 m OR store 46 (load 46 m :: 2 word)"
    using take_bit_member [where off = 46 and m = m and 'a = 2] by simp
  have s6: "take_bit 64 m = take_bit 48 m OR store 48 (load 48 m :: 16 word)"
    using take_bit_member [where off = 48 and m = m and 'a = 16] by simp
  have s7: "take_bit 80 m = take_bit 64 m OR store 64 (load 64 m :: 16 word)"
    using take_bit_member [where off = 64 and m = m and 'a = 16] by simp
  have s8: "take_bit 96 m = take_bit 80 m OR store 80 (load 80 m :: 16 word)"
    using take_bit_member [where off = 80 and m = m and 'a = 16] by simp
  have s9: "take_bit 104 m = take_bit 96 m OR store 96 (load 96 m :: 8 word)"
    using take_bit_member [where off = 96 and m = m and 'a = 8] by simp
  have s10: "take_bit 112 m = take_bit 104 m OR store 104 (load 104 m :: 8 word)"
    using take_bit_member [where off = 104 and m = m and 'a = 8] by simp
  have s11: "take_bit 128 m = take_bit 112 m OR store 112 (load 112 m :: 16 word)"
    using take_bit_member [where off = 112 and m = m and 'a = 16] by simp
  have s12: "take_bit 144 m = take_bit 128 m OR store 128 (load 128 m :: 16 word)"
    using take_bit_member [where off = 128 and m = m and 'a = 16] by simp
  have "take_bit LENGTH(144) m = m"
    by (rule take_bit_length_eq)
  then have "m = take_bit 144 m"
    by simp
  also have "\<dots> = image_of_Data (Data_of_image m)"
    unfolding s12 s11 s10 s9 s8 s7 s6 s5 s4 s3 s2 s1 s0
    by (simp add: image_of_Data_def Data_of_image_def Data_offset_values ac_simps)
  finally show ?thesis
    by simp
qed

lemma byte_of_image_of_bytes:
  "i < length bs \<Longrightarrow> length bs \<le> 18 \<Longrightarrow>
   (ucast (drop_bit (8 * i) (image_of_bytes bs)) :: 8 word) = bs ! i"
proof (induction bs arbitrary: i)
  case Nil
  then show ?case by simp
next
  case (Cons b bs)
  show ?case
  proof (cases i)
    case 0
    then show ?thesis
      by (simp, intro bit_word_eqI) (auto simp add: bit_simps dest: bit_imp_le_length)
  next
    case (Suc j)
    with Cons.prems have j: "j < length bs" "length bs \<le> 18" "j \<le> 16"
      by simp_all
    have "(ucast (drop_bit (8 * Suc j) (image_of_bytes (b # bs))) :: 8 word) =
      ucast (drop_bit (8 * j) (image_of_bytes bs))"
      using j(3) by (simp, intro bit_word_eqI) (auto simp add: bit_simps dest: bit_imp_le_length)
    with Suc j Cons.IH [of j] show ?thesis
      by simp
  qed
qed

lemma bytes_of_image_of_bytes:
  assumes "length bs = 18"
  shows "bytes_of_image (image_of_bytes bs) = bs"
proof (rule nth_equalityI)
  show "length (bytes_of_image (image_of_bytes bs)) = length bs"
    using assms by (simp add: bytes_of_image_def)
next
  fix i
  assume "i < length (bytes_of_image (image_of_bytes bs))"
  then have "i < 18"
    by (simp add: bytes_of_image_def)
  then show "bytes_of_image (image_of_bytes bs) ! i = bs ! i"
    using assms byte_of_image_of_bytes [of i bs]
    by (simp add: bytes_of_image_def del: upt_Suc)
qed

theorem Data_bytes_decode_then_encode:
  "Data_from_bytes bs = Some d \<Longrightarrow> Data_to_bytes d = bs"
  by (auto simp add: Data_from_bytes_def Data_to_bytes_def image_of_Data_of_image
      bytes_of_image_of_bytes split: if_splits)

theorem Data_bytes_decode_then_encode_witness:
  "Data_from_bytes [0, 4, 32, 0, 1, 88, 0, 0, 0, 0, 0, 0, 0, 0, 0, 0, 0, 0] = Some neutral_frame \<and>
   Data_to_bytes neutral_frame = [0, 4, 32, 0, 1, 88, 0, 0, 0, 0, 0, 0, 0, 0, 0, 0, 0, 0]"
proof -
  have "Data_from_bytes [0, 4, 32, 0, 1, 88, 0, 0, 0, 0, 0, 0, 0, 0, 0, 0, 0, 0] =
      Some neutral_frame"
    by (simp add: Data_from_bytes_def Data_of_image_def Data_offset_values load_def
        neutral_frame_def)
  with Data_bytes_decode_then_encode [OF this] show ?thesis
    by simp
qed

section \<open>Properties of the key codes\<close>

lemma Key_code_values:
  "map (\<lambda>k. unat (Key_code k)) (base_keys @ [KEY_NUM]) = [6 ..< 27]"
  by (simp add: base_keys_def upt_rec)

lemma Key_code_range: "6 \<le> unat (Key_code k) \<and> unat (Key_code k) \<le> 26"
  by (cases k) simp_all

lemma unat_KEY_NUM: "unat (Key_code KEY_NUM) = 26"
  by simp

lemma unat_ShiftWith: "unat (ShiftWith k) = unat (Key_code k) + 26"
  by (cases k) (simp_all add: ShiftWith_def)

lemma unat_CtrlWith: "unat (CtrlWith k) = unat (Key_code k) + 52"
  by (cases k) (simp_all add: CtrlWith_def)

lemma unat_ShiftCtrlWith: "unat (ShiftCtrlWith k) = unat (Key_code k) + 78"
  by (cases k) (simp_all add: ShiftCtrlWith_def)

lemma base_keys_complete: "k \<in> set base_keys \<longleftrightarrow> k \<noteq> KEY_NUM"
  by (cases k) (simp_all add: base_keys_def)

lemma base_key_code_below_KEY_NUM:
  "k \<in> set base_keys \<Longrightarrow> unat (Key_code k) < 26"
  by (cases k) (simp_all add: base_keys_def)

text \<open>
  Claim C6, as stated, takes \<open>N\<close> to be the number of base keys and events. There
  are 20 of them, while the offset the code adds is the value of \<^verbatim>\<open>KEY_NUM\<close>,
  which is 26 because \<^verbatim>\<open>KEY_W\<close> starts at 6: \<^verbatim>\<open>ShiftWith(KEY_W)\<close> is 32, not
  \<open>6 + 20\<close>.
\<close>

theorem ShiftWith_offset_is_not_key_count:
  "\<not> (unat (ShiftWith KEY_W) = unat (Key_code KEY_W) + 1 * length base_keys)"
  by (simp add: unat_ShiftWith base_keys_def)

text \<open>
  Claim C6, amended. For every enumerator \<open>k\<close> of \<^verbatim>\<open>Key\<close>, the codes
  \<^verbatim>\<open>ShiftWith(k)\<close>, \<^verbatim>\<open>CtrlWith(k)\<close> and \<^verbatim>\<open>ShiftCtrlWith(k)\<close> are the code of \<open>k\<close>
  plus \<open>N\<close>, \<open>2N\<close> and \<open>3N\<close>, where \<open>N\<close> is the value of the sentinel \<^verbatim>\<open>KEY_NUM\<close>,
  26: the 6 switch-position codes below \<^verbatim>\<open>KEY_W\<close> plus the 20 base keys and
  events. The three combination codes of a key differ from one another and from
  its base code.
\<close>

theorem combination_codes_offset_by_KEY_NUM:
  "unat (ShiftWith k) = unat (Key_code k) + 1 * unat (Key_code KEY_NUM) \<and>
   unat (CtrlWith k) = unat (Key_code k) + 2 * unat (Key_code KEY_NUM) \<and>
   unat (ShiftCtrlWith k) = unat (Key_code k) + 3 * unat (Key_code KEY_NUM) \<and>
   unat (Key_code KEY_NUM) = 26 \<and>
   unat (Key_code KEY_NUM) = unat (SwitchPos_code DR16_SW_POS_NUM) + length base_keys \<and>
   distinct [ucast (Key_code k), ShiftWith k, CtrlWith k, ShiftCtrlWith k]"
proof -
  have "unat (ucast (Key_code k) :: 32 word) = unat (Key_code k)"
    by (cases k) simp_all
  then have "distinct (map unat [ucast (Key_code k), ShiftWith k, CtrlWith k, ShiftCtrlWith k])"
    by (simp add: unat_ShiftWith unat_CtrlWith unat_ShiftCtrlWith)
  then have "distinct [ucast (Key_code k), ShiftWith k, CtrlWith k, ShiftCtrlWith k]"
    by (rule distinct_map [THEN iffD1, THEN conjunct1])
  moreover have "length base_keys = 20"
    by (simp add: base_keys_def)
  ultimately show ?thesis
    by (simp add: unat_ShiftWith unat_CtrlWith unat_ShiftCtrlWith)
qed

text \<open>
  Claim C10. The base codes start at 6, the number of switch-position
  enumerators, and those of the base keys lie strictly below \<^verbatim>\<open>KEY_NUM\<close>, which
  is 26. The four families of codes (base, Shift, Ctrl, Shift with Ctrl)
  therefore occupy ranges that do not meet: for any two keys \<open>k1\<close> and \<open>k2\<close>, a
  code of one family is never a code of another family.
\<close>

theorem code_families_disjoint:
  "unat (Key_code KEY_W) = 6 \<and> unat (Key_code KEY_NUM) = 26 \<and>
   (k1 \<in> set base_keys \<longrightarrow> 6 \<le> unat (Key_code k1) \<and> unat (Key_code k1) < 26) \<and>
   unat (Key_code k1) \<noteq> unat (ShiftWith k2) \<and>
   unat (Key_code k1) \<noteq> unat (CtrlWith k2) \<and>
   unat (Key_code k1) \<noteq> unat (ShiftCtrlWith k2) \<and>
   ShiftWith k1 \<noteq> CtrlWith k2 \<and>
   ShiftWith k1 \<noteq> ShiftCtrlWith k2 \<and>
   CtrlWith k1 \<noteq> ShiftCtrlWith k2"
proof -
  have r1: "6 \<le> unat (Key_code k1)" "unat (Key_code k1) \<le> 26"
    using Key_code_range [of k1] by simp_all
  have r2: "6 \<le> unat (Key_code k2)" "unat (Key_code k2) \<le> 26"
    using Key_code_range [of k2] by simp_all
  have "unat (ShiftWith k1) \<noteq> unat (CtrlWith k2)"
    using r1 r2 by (simp add: unat_ShiftWith unat_CtrlWith)
  then have a: "ShiftWith k1 \<noteq> CtrlWith k2"
    by auto
  have "unat (ShiftWith k1) \<noteq> unat (ShiftCtrlWith k2)"
    using r1 r2 by (simp add: unat_ShiftWith unat_ShiftCtrlWith)
  then have b: "ShiftWith k1 \<noteq> ShiftCtrlWith k2"
    by auto
  have "unat (CtrlWith k1) \<noteq> unat (ShiftCtrlWith k2)"
    using r1 r2 by (simp add: unat_CtrlWith unat_ShiftCtrlWith)
  then have c: "CtrlWith k1 \<noteq> ShiftCtrlWith k2"
    by auto
  show ?thesis
    using r1 r2 a b c base_key_code_below_KEY_NUM [of k1]
    by (simp add: unat_ShiftWith unat_CtrlWith unat_ShiftCtrlWith)
qed

theorem code_families_disjoint_witness:
  "KEY_R_RELEASE \<in> set base_keys \<and> unat (Key_code KEY_R_RELEASE) = 25 \<and>
   unat (ShiftWith KEY_W) = 32 \<and> ShiftWith KEY_R_RELEASE \<noteq> CtrlWith KEY_W"
  using code_families_disjoint [of KEY_R_RELEASE KEY_W]
  by (simp add: base_keys_def unat_ShiftWith)

end
